theory Spec2Isabelle
  imports Main
begin

section \<open>bn::unique\_ptr: the owning handle\<close>

subsection \<open>Data model\<close>

text \<open>
  A \<open>pointer\<close> (\<open>Type*\<close>) is an address; the only address the class singles out is
  \<open>nullptr\<close>.  The class has two private members, \<open>_ptr\<close> (default member initialiser
  \<open>nullptr\<close>) and \<open>_deleter\<close>.  The deleter type is a template parameter: a deleter is a
  value of an arbitrary type \<open>'d\<close>.
\<close>

type_synonym pointer = nat

definition nullptr :: pointer where
  "nullptr = 0"

record 'd unique_ptr =
  ptr :: pointer
  deleter :: 'd

text \<open>
  The member functions mutate the object they are called on, and the move operations
  mutate a second object that may be the same one (\<open>h = move(h)\<close>).  Objects therefore
  live in a store indexed by object identity.  Invoking the deleter, \<open>_deleter(_ptr)\<close>, is
  the only effect that leaves the class: each invocation is recorded, in order, as the pair
  of the deleter that was called and the address it was called with.
\<close>

type_synonym object_id = nat

record 'd world =
  objects :: "object_id \<Rightarrow> 'd unique_ptr"
  calls :: "('d \<times> pointer) list"

definition set_ptr :: "object_id \<Rightarrow> pointer \<Rightarrow> 'd world \<Rightarrow> 'd world" where
  "set_ptr this p w = w\<lparr>objects := (objects w)(this := (objects w this)\<lparr>ptr := p\<rparr>)\<rparr>"

definition set_deleter :: "object_id \<Rightarrow> 'd \<Rightarrow> 'd world \<Rightarrow> 'd world" where
  "set_deleter this d w = w\<lparr>objects := (objects w)(this := (objects w this)\<lparr>deleter := d\<rparr>)\<rparr>"

text \<open>\<open>_deleter(_ptr)\<close>: the call is appended to the record of invocations.\<close>

definition invoke_deleter :: "object_id \<Rightarrow> 'd world \<Rightarrow> 'd world" where
  "invoke_deleter this w =
     w\<lparr>calls := calls w @ [(deleter (objects w this), ptr (objects w this))]\<rparr>"

subsection \<open>Constructors\<close>

text \<open>\<open>unique_ptr() = default\<close>, with a default-constructed deleter \<open>d\<close>.\<close>

definition unique_ptr_default :: "'d \<Rightarrow> 'd unique_ptr" where
  "unique_ptr_default d = \<lparr>ptr = nullptr, deleter = d\<rparr>"

text \<open>\<open>explicit unique_ptr(pointer ptr)\<close>.\<close>

definition unique_ptr_explicit :: "'d \<Rightarrow> pointer \<Rightarrow> 'd unique_ptr" where
  "unique_ptr_explicit d p = \<lparr>ptr = p, deleter = d\<rparr>"

subsection \<open>Observers\<close>

text \<open>The conversion of a pointer to \<open>bool\<close>, used by \<open>! a._ptr\<close> and \<open>return a._ptr\<close>.\<close>

definition pointer_to_bool :: "pointer \<Rightarrow> bool" where
  "pointer_to_bool p = (p \<noteq> nullptr)"

definition operator_bool :: "'d unique_ptr \<Rightarrow> bool" where
  "operator_bool h = (ptr h \<noteq> nullptr)"

definition get :: "'d unique_ptr \<Rightarrow> pointer" where
  "get h = ptr h"

definition get_deleter :: "'d unique_ptr \<Rightarrow> 'd" where
  "get_deleter h = deleter h"

subsection \<open>Modifiers\<close>

text \<open>
  \<open>pointer release()\<close>:
  \<^verbatim>\<open>pointer result = _ptr; _ptr = nullptr; return result;\<close>
\<close>

definition release :: "object_id \<Rightarrow> 'd world \<Rightarrow> pointer \<times> 'd world" where
  "release this w =
     (let result = ptr (objects w this);
          w' = set_ptr this nullptr w
      in (result, w'))"

text \<open>
  \<open>void reset()\<close>:
  \<^verbatim>\<open>_deleter(_ptr); _ptr = nullptr;\<close>
\<close>

definition reset :: "object_id \<Rightarrow> 'd world \<Rightarrow> 'd world" where
  "reset this w = set_ptr this nullptr (invoke_deleter this w)"

text \<open>
  \<open>void reset(pointer ptr)\<close>:
  \<^verbatim>\<open>if(ptr != _ptr) { reset(); _ptr = ptr; }\<close>
\<close>

definition reset_to :: "object_id \<Rightarrow> pointer \<Rightarrow> 'd world \<Rightarrow> 'd world" where
  "reset_to this p w =
     (if p \<noteq> ptr (objects w this) then set_ptr this p (reset this w) else w)"

text \<open>
  \<open>move\<close> is a cast: what moving a deleter does is decided by the move constructor and the
  move assignment operator of the template argument \<open>Deleter\<close>, which the class does not
  define.  They are a parameter of the model.  The object that is built or assigned receives
  the value the source had; \<open>moved_from\<close> is the state in which the source is left, and
  \<open>self_moved\<close> is the state of a deleter that has been move-assigned to itself.
\<close>

record 'd deleter_moves =
  moved_from :: "'d \<Rightarrow> 'd"
  self_moved :: "'d \<Rightarrow> 'd"

text \<open>A deleter type whose moves are copies, such as an empty class or a function pointer.\<close>

definition trivially_movable :: "'d deleter_moves" where
  "trivially_movable = \<lparr>moved_from = (\<lambda>d. d), self_moved = (\<lambda>d. d)\<rparr>"

text \<open>
  The move constructor builds a new object from \<open>other\<close>:
  \<^verbatim>\<open>_ptr(other.release()), _deleter(move(other._deleter))\<close>
  The members are initialised in this order.  The new object is returned together with the
  world in which \<open>other\<close> has been released and its deleter moved from.
\<close>

definition move_construct ::
  "'d deleter_moves \<Rightarrow> object_id \<Rightarrow> 'd world \<Rightarrow> 'd unique_ptr \<times> 'd world" where
  "move_construct m other w =
     (let (p, w1) = release other w;
          d = deleter (objects w1 other)
      in (\<lparr>ptr = p, deleter = d\<rparr>, set_deleter other (moved_from m d) w1))"

text \<open>
  The statement \<^verbatim>\<open>_deleter = move(other._deleter);\<close> of the move assignment operator.
  When \<open>this\<close> and \<open>other\<close> are the same object the deleter is move-assigned to itself.
\<close>

definition assign_deleter ::
  "'d deleter_moves \<Rightarrow> object_id \<Rightarrow> object_id \<Rightarrow> 'd world \<Rightarrow> 'd world" where
  "assign_deleter m this other w =
     (if this = other
      then set_deleter this (self_moved m (deleter (objects w this))) w
      else (let d = deleter (objects w other)
            in set_deleter other (moved_from m d) (set_deleter this d w)))"

text \<open>
  \<open>unique_ptr& operator=(unique_ptr&& other)\<close>:
  \<^verbatim>\<open>reset(other.release()); _deleter = move(other._deleter); return *this;\<close>
  \<open>this\<close> and \<open>other\<close> are object identities and may coincide.
\<close>

definition move_assign ::
  "'d deleter_moves \<Rightarrow> object_id \<Rightarrow> object_id \<Rightarrow> 'd world \<Rightarrow> 'd world" where
  "move_assign m this other w =
     (let (p, w1) = release other w;
          w2 = reset_to this p w1
      in assign_deleter m this other w2)"

text \<open>\<open>~unique_ptr()\<close>: \<^verbatim>\<open>reset();\<close>\<close>

definition destructor :: "object_id \<Rightarrow> 'd world \<Rightarrow> 'd world" where
  "destructor this w = reset this w"

subsection \<open>Comparison with the null pointer\<close>

definition eq_nullptr :: "'d unique_ptr \<Rightarrow> bool" where
  "eq_nullptr a = (\<not> pointer_to_bool (ptr a))"

definition ne_nullptr :: "'d unique_ptr \<Rightarrow> bool" where
  "ne_nullptr a = pointer_to_bool (ptr a)"

definition lt_nullptr :: "'d unique_ptr \<Rightarrow> bool" where
  "lt_nullptr a = False"

definition gt_nullptr :: "'d unique_ptr \<Rightarrow> bool" where
  "gt_nullptr a = pointer_to_bool (ptr a)"

definition le_nullptr :: "'d unique_ptr \<Rightarrow> bool" where
  "le_nullptr a = (\<not> pointer_to_bool (ptr a))"

definition ge_nullptr :: "'d unique_ptr \<Rightarrow> bool" where
  "ge_nullptr a = True"

text \<open>The addresses a list of deleter invocations was made with.\<close>

definition addresses :: "('d \<times> pointer) list \<Rightarrow> pointer list" where
  "addresses cs = map snd cs"

section \<open>btn::array: the fixed sequence\<close>

subsection \<open>Contract violations\<close>

text \<open>
  An assertion that fails carries its message and the value printed after it.
\<close>

datatype assertion_failure = Assertion_failure string int

text \<open>
  Modelled from the spec: the macro \<open>BTN_ASSERT\<close> of \<open>btn_assert.h\<close>.  It is the contract-assertion facility: it takes a condition and a
  human-readable message and halts on failure; a violation is fatal and never recovered.
  Halting is the result \<open>Inl\<close>, after which nothing else of the caller runs.
\<close>

definition BTN_ASSERT :: "bool \<Rightarrow> string \<Rightarrow> int \<Rightarrow> assertion_failure + unit" where
  "BTN_ASSERT condition message arg =
     (if condition then Inr () else Inl (Assertion_failure message arg))"

subsection \<open>Data model\<close>

text \<open>
  \<open>template<typename Type, int Size> class array\<close> has the single member
  \<open>Type _data[Size]\<close>.  The template argument \<open>Size\<close> is kept as a field next to the
  storage; \<open>static_assert(Size > 0)\<close> and the declared length of \<open>_data\<close> make up the
  well-formedness of an array.  \<open>size_type\<close> is \<open>int\<close>.
\<close>

record 'a array =
  Size :: int
  data :: "'a list"

definition well_formed :: "'a array \<Rightarrow> bool" where
  "well_formed a = (Size a > 0 \<and> int (length (data a)) = Size a)"

subsection \<open>Capacity\<close>

definition array_size :: "'a array \<Rightarrow> int" where
  "array_size a = Size a"

definition array_max_size :: "'a array \<Rightarrow> int" where
  "array_max_size a = Size a"

definition array_available :: "'a array \<Rightarrow> int" where
  "array_available a = 0"

definition array_empty :: "'a array \<Rightarrow> bool" where
  "array_empty a = False"

definition array_full :: "'a array \<Rightarrow> bool" where
  "array_full a = True"

subsection \<open>Element access\<close>

text \<open>
  \<open>operator[]\<close> and \<open>at\<close>, const and non-const, have the same body:
  \<^verbatim>\<open>BTN_ASSERT(index >= 0 && index < Size, "Invalid index: ", index); return _data[index];\<close>
  The reference that is returned is read here; writing through it is \<open>array_assign\<close> below.
\<close>

definition array_subscript :: "'a array \<Rightarrow> int \<Rightarrow> assertion_failure + 'a" where
  "array_subscript a index =
     (case BTN_ASSERT (index \<ge> 0 \<and> index < Size a) ''Invalid index: '' index of
        Inl failure \<Rightarrow> Inl failure
      | Inr _ \<Rightarrow> Inr (data a ! nat index))"

definition array_at :: "'a array \<Rightarrow> int \<Rightarrow> assertion_failure + 'a" where
  "array_at a index =
     (case BTN_ASSERT (index \<ge> 0 \<and> index < Size a) ''Invalid index: '' index of
        Inl failure \<Rightarrow> Inl failure
      | Inr _ \<Rightarrow> Inr (data a ! nat index))"

text \<open>An element write, \<open>a[index] = value\<close>, through the non-const \<open>operator[]\<close>.\<close>

definition array_assign :: "'a array \<Rightarrow> int \<Rightarrow> 'a \<Rightarrow> assertion_failure + 'a array" where
  "array_assign a index v =
     (case BTN_ASSERT (index \<ge> 0 \<and> index < Size a) ''Invalid index: '' index of
        Inl failure \<Rightarrow> Inl failure
      | Inr _ \<Rightarrow> Inr (a\<lparr>data := (data a)[nat index := v]\<rparr>))"

subsection \<open>fill and swap\<close>

text \<open>
  Modelled from the spec: \<open>btn::fill\<close> of \<open>btn_algorithm.h\<close>.
  \<open>fill(first, last, value)\<close> assigns \<open>value\<close> to every element of the
  range; iterators are positions in the storage.
\<close>

function btn_fill :: "nat \<Rightarrow> nat \<Rightarrow> 'a \<Rightarrow> 'a list \<Rightarrow> 'a list" where
  "btn_fill pos end_pos v xs =
     (if pos < end_pos then btn_fill (Suc pos) end_pos v (xs[pos := v]) else xs)"
  by pat_completeness auto
termination
  by (relation "measure (\<lambda>(pos, end_pos, v, xs). end_pos - pos)") auto

text \<open>\<open>fill(value)\<close>: \<^verbatim>\<open>btn::fill(begin(), end(), value);\<close>\<close>

definition array_fill :: "'a array \<Rightarrow> 'a \<Rightarrow> 'a array" where
  "array_fill a v = a\<lparr>data := btn_fill 0 (nat (Size a)) v (data a)\<rparr>"

text \<open>
  The loop of \<open>swap\<close>:
  \<^verbatim>\<open>for(size_type index = 0; index < Size; ++index) btn::swap(data[index], other_data[index]);\<close>
\<close>

function swap_loop :: "int \<Rightarrow> int \<Rightarrow> 'a list \<Rightarrow> 'a list \<Rightarrow> 'a list \<times> 'a list" where
  "swap_loop index n xs ys =
     (if index < n
      then swap_loop (index + 1) n (xs[nat index := ys ! nat index]) (ys[nat index := xs ! nat index])
      else (xs, ys))"
  by pat_completeness auto
termination
  by (relation "measure (\<lambda>(index, n, xs, ys). nat (n - index))") auto

text \<open>
  \<open>swap(array& other)\<close>: both arrays change, so both are returned, \<open>this\<close> first.  The other
  array has the same type, hence the same \<open>Size\<close>.
\<close>

definition array_swap :: "'a array \<Rightarrow> 'a array \<Rightarrow> 'a array \<times> 'a array" where
  "array_swap a other =
     (let (xs, ys) = swap_loop 0 (Size a) (data a) (data other)
      in (a\<lparr>data := xs\<rparr>, other\<lparr>data := ys\<rparr>))"

text \<open>
  The mutating operations of the class, and a lifetime as a sequence of them.  A failed
  assertion halts the program, so it ends the sequence.
\<close>

datatype 'a array_operation =
  Fill 'a
| Swap_with "'a array"
| Assign int 'a

fun apply_operation :: "'a array \<Rightarrow> 'a array_operation \<Rightarrow> assertion_failure + 'a array" where
  "apply_operation a (Fill v) = Inr (array_fill a v)"
| "apply_operation a (Swap_with other) = Inr (fst (array_swap a other))"
| "apply_operation a (Assign index v) = array_assign a index v"

fun apply_operations :: "'a array \<Rightarrow> 'a array_operation list \<Rightarrow> assertion_failure + 'a array" where
  "apply_operations a [] = Inr a"
| "apply_operations a (operation # rest) =
     (case apply_operation a operation of
        Inl failure \<Rightarrow> Inl failure
      | Inr a' \<Rightarrow> apply_operations a' rest)"

text \<open>An operation is well typed for an array when the arrays it mentions have its type.\<close>

fun operation_typed :: "int \<Rightarrow> 'a array_operation \<Rightarrow> bool" where
  "operation_typed n (Swap_with other) = (well_formed other \<and> Size other = n)"
| "operation_typed n _ = True"

subsection \<open>Comparison\<close>

text \<open>
  Modelled from the spec: \<open>equal\<close> and \<open>lexicographical_compare\<close> of \<open>btn_algorithm.h\<close>.
  They are the equality and ordering comparison
  algorithms for ranges; the ordering is the lexicographic element-wise comparison.  A range
  is the list of its elements.  \<open>equal(first1, last1, first2)\<close> walks the first range and
  compares each element with the one at the same position of the second range, which the
  caller guarantees to be at least as long; \<open>lexicographical_compare\<close> walks both ranges
  until one of them ends or two elements are ordered.
\<close>

fun btn_equal :: "'a list \<Rightarrow> 'a list \<Rightarrow> bool" where
  "btn_equal [] ys = True"
| "btn_equal (x # xs) [] = False"
| "btn_equal (x # xs) (y # ys) = (if x = y then btn_equal xs ys else False)"

fun btn_lexicographical_compare :: "'a::linorder list \<Rightarrow> 'a list \<Rightarrow> bool" where
  "btn_lexicographical_compare [] [] = False"
| "btn_lexicographical_compare [] (y # ys) = True"
| "btn_lexicographical_compare (x # xs) [] = False"
| "btn_lexicographical_compare (x # xs) (y # ys) =
     (if x < y then True
      else if y < x then False
      else btn_lexicographical_compare xs ys)"

text \<open>
  \<open>operator==\<close>:
  \<^verbatim>\<open>if(a.size() != b.size()) return false; return equal(a.begin(), a.end(), b.begin());\<close>
\<close>

definition array_eq :: "'a array \<Rightarrow> 'a array \<Rightarrow> bool" where
  "array_eq a b =
     (if array_size a \<noteq> array_size b then False else btn_equal (data a) (data b))"

definition array_ne :: "'a array \<Rightarrow> 'a array \<Rightarrow> bool" where
  "array_ne a b = (\<not> array_eq a b)"

text \<open>
  \<open>operator<\<close>:
  \<^verbatim>\<open>return lexicographical_compare(a.begin(), a.end(), b.begin(), b.end());\<close>
\<close>

definition array_lt :: "'a::linorder array \<Rightarrow> 'a array \<Rightarrow> bool" where
  "array_lt a b = btn_lexicographical_compare (data a) (data b)"

definition array_gt :: "'a::linorder array \<Rightarrow> 'a array \<Rightarrow> bool" where
  "array_gt a b = array_lt b a"

definition array_le :: "'a::linorder array \<Rightarrow> 'a array \<Rightarrow> bool" where
  "array_le a b = (\<not> array_gt a b)"

definition array_ge :: "'a::linorder array \<Rightarrow> 'a array \<Rightarrow> bool" where
  "array_ge a b = (\<not> array_lt a b)"

subsection \<open>Conversion from a built-in array\<close>

text \<open>
  \<open>to_array(Type (&base_array)[Size])\<close>: \<^verbatim>\<open>return array(base_array);\<close>
  The class declares no constructor and no deduction guide, and its only member, the
  storage \<open>Type _data[Size]\<close>, cannot be initialised from an array lvalue.  The expression
  \<open>array(base_array)\<close> therefore denotes no array: the function template is ill-formed once
  it is instantiated, and there is no function of values to embed.
\<close>

section \<open>Examples\<close>

text \<open>
  A world with a handle at address 100, a handle at address 200, and empty handles
  everywhere else; nothing has been disposed of yet.
\<close>

definition example_world :: "string world" where
  "example_world =
     \<lparr>objects = (\<lambda>_. \<lparr>ptr = nullptr, deleter = ''default''\<rparr>)
          (1 := \<lparr>ptr = 100, deleter = ''dA''\<rparr>, 2 := \<lparr>ptr = 200, deleter = ''dB''\<rparr>),
      calls = []\<rparr>"

text \<open>A deleter type that a move, also a move to itself, leaves empty.\<close>

definition example_moves :: "string deleter_moves" where
  "example_moves = \<lparr>moved_from = (\<lambda>d. []), self_moved = (\<lambda>d. [])\<rparr>"

text \<open>Two arrays of three integers that differ first at index 1, and a use of the first.\<close>

definition example_array :: "int array" where
  "example_array = \<lparr>Size = 3, data = [1, 2, 3]\<rparr>"

definition example_other :: "int array" where
  "example_other = \<lparr>Size = 3, data = [1, 5, 0]\<rparr>"

definition example_operations :: "int array_operation list" where
  "example_operations = [Fill 7, Assign 1 4, Swap_with example_other, Assign 2 9]"

text \<open>
  The two loops are unfolded by hand in the proofs: their defining equations are recursive
  without a guard.
\<close>

declare btn_fill.simps [simp del]
declare swap_loop.simps [simp del]

section \<open>Properties of the owning handle\<close>

lemmas handle_defs = set_ptr_def set_deleter_def invoke_deleter_def release_def reset_def
  reset_to_def move_construct_def assign_deleter_def move_assign_def destructor_def
  operator_bool_def get_def get_deleter_def

text \<open>
  C1.  Moving a handle \<open>A\<close> that manages the address \<open>p\<close> (possibly null) into a handle
  \<open>B\<close> leaves \<open>A\<close> empty and \<open>B\<close> managing \<open>p\<close>, with the deleter of \<open>A\<close>, whatever a move
  does to a deleter.  Move construction builds \<open>B\<close> and invokes no deleter.  Move assignment
  is \<open>reset(A.release())\<close> followed by the transfer of the deleter; for two handle objects
  \<open>A\<close> and \<open>B\<close> the old deleter of \<open>B\<close> is invoked on the old address of \<open>B\<close> exactly when
  that address differs from \<open>p\<close>, and nothing else is invoked.  For a deleter type whose moves
  are copies the transfer only sets the deleter of \<open>B\<close>.  (Two handles are two objects: a
  handle cannot both be empty and manage a non-null \<open>p\<close>.  Assigning a handle to itself is
  C10.)
\<close>

theorem move_transfers_ownership:
  "(case move_construct m A w of
      (built, w') \<Rightarrow> \<not> operator_bool (objects w' A) \<and> get built = ptr (objects w A) \<and>
                     get_deleter built = deleter (objects w A) \<and> calls w' = calls w) \<and>
   (A \<noteq> B \<longrightarrow>
      (let w' = move_assign m B A w
       in \<not> operator_bool (objects w' A) \<and>
          get (objects w' B) = ptr (objects w A) \<and>
          get_deleter (objects w' B) = deleter (objects w A) \<and>
          calls w' = calls w @
            (if ptr (objects w B) \<noteq> ptr (objects w A)
             then [(deleter (objects w B), ptr (objects w B))] else []))) \<and>
   move_assign m B A w =
     (case release A w of (p, w1) \<Rightarrow> assign_deleter m B A (reset_to B p w1)) \<and>
   move_assign trivially_movable B A w =
     (case release A w of
        (p, w1) \<Rightarrow> set_deleter B (deleter (objects w A)) (reset_to B p w1))"
proof -
  have construct:
    "(case move_construct m A w of
        (built, w') \<Rightarrow> \<not> operator_bool (objects w' A) \<and> get built = ptr (objects w A) \<and>
                       get_deleter built = deleter (objects w A) \<and> calls w' = calls w)"
    by (simp add: handle_defs Let_def)
  have assign:
    "let w' = move_assign m B A w
     in \<not> operator_bool (objects w' A) \<and>
        get (objects w' B) = ptr (objects w A) \<and>
        get_deleter (objects w' B) = deleter (objects w A) \<and>
        calls w' = calls w @
          (if ptr (objects w B) \<noteq> ptr (objects w A)
           then [(deleter (objects w B), ptr (objects w B))] else [])"
    if "A \<noteq> B"
    using that by (auto simp add: handle_defs Let_def)
  have sequence:
    "move_assign m B A w =
       (case release A w of (p, w1) \<Rightarrow> assign_deleter m B A (reset_to B p w1))"
    by (simp add: move_assign_def Let_def split_beta)
  have copies:
    "move_assign trivially_movable B A w =
       (case release A w of
          (p, w1) \<Rightarrow> set_deleter B (deleter (objects w A)) (reset_to B p w1))"
    by (auto simp add: handle_defs trivially_movable_def Let_def fun_eq_iff
        intro!: world.equality)
  show ?thesis
    using construct assign sequence copies by blast
qed

theorem move_transfers_ownership_witness:
  "(1::object_id) \<noteq> 2 \<and>
   \<not> operator_bool (objects (move_assign example_moves 2 1 example_world) 1) \<and>
   get (objects (move_assign example_moves 2 1 example_world) 2) = 100 \<and>
   get_deleter (objects (move_assign example_moves 2 1 example_world) 2) = ''dA'' \<and>
   calls (move_assign example_moves 2 1 example_world) = [(''dB'', 200)] \<and>
   get (fst (move_construct example_moves 1 example_world)) = 100 \<and>
   \<not> operator_bool (objects (snd (move_construct example_moves 1 example_world)) 1)"
  using move_transfers_ownership [where m = example_moves and A = 1 and B = 2 and w = example_world]
  by (simp add: example_world_def example_moves_def handle_defs nullptr_def Let_def)

text \<open>
  C2.  For a handle \<open>H\<close> managing \<open>p\<close>, \<open>release()\<close> returns \<open>p\<close>, leaves \<open>H\<close> empty and
  invokes no deleter; destroying \<open>H\<close> afterwards invokes the deleter once, on the null
  address, so \<open>p\<close> is not disposed of.
\<close>

theorem release_hands_over:
  "(case release H w of
      (p, w') \<Rightarrow> p = ptr (objects w H) \<and> \<not> operator_bool (objects w' H) \<and>
                 calls w' = calls w \<and>
                 calls (destructor H w') = calls w @ [(deleter (objects w H), nullptr)])"
  by (simp add: handle_defs Let_def)

text \<open>
  C3.  \<open>reset(q)\<close> with \<open>q\<close> different from the current address invokes the deleter on the
  current address and binds \<open>H\<close> to \<open>q\<close>, changing nothing else; \<open>reset(q)\<close> with \<open>q\<close>
  equal to the current address changes nothing at all.  In particular \<open>H.reset(H.get())\<close>
  invokes no deleter and leaves \<open>H\<close> as it was.
\<close>

theorem reset_to_rebinds:
  "(q \<noteq> ptr (objects w H) \<longrightarrow>
      calls (reset_to H q w) = calls w @ [(deleter (objects w H), ptr (objects w H))] \<and>
      objects (reset_to H q w) = (objects w)(H := (objects w H)\<lparr>ptr := q\<rparr>)) \<and>
   (q = ptr (objects w H) \<longrightarrow> reset_to H q w = w) \<and>
   reset_to H (get (objects w H)) w = w"
  by (simp add: handle_defs)

theorem reset_to_rebinds_witness:
  "(300::pointer) \<noteq> ptr (objects example_world 1) \<and>
   calls (reset_to 1 300 example_world) = [(''dA'', 100)] \<and>
   ptr (objects (reset_to 1 300 example_world) 1) = 300 \<and>
   (100::pointer) = ptr (objects example_world 1) \<and>
   reset_to 1 100 example_world = example_world"
  using reset_to_rebinds [of 300 example_world 1] reset_to_rebinds [of 100 example_world 1]
  by (simp add: example_world_def)

text \<open>
  C4.  \<open>reset()\<close> invokes the deleter on the current address, null or not, and sets the
  address to null.  On an empty handle the deleter receives the null address and no object
  changes; a second \<open>reset()\<close> leaves every object as the first one left it.
\<close>

theorem reset_disposes_current:
  "calls (reset H w) = calls w @ [(deleter (objects w H), ptr (objects w H))] \<and>
   ptr (objects (reset H w) H) = nullptr \<and>
   (\<not> operator_bool (objects w H) \<longrightarrow>
      calls (reset H w) = calls w @ [(deleter (objects w H), nullptr)] \<and>
      \<not> operator_bool (objects (reset H w) H) \<and>
      objects (reset H w) = objects w) \<and>
   objects (reset H (reset H w)) = objects (reset H w)"
  by (auto simp add: handle_defs fun_eq_iff)

theorem reset_disposes_current_witness:
  "\<not> operator_bool (objects example_world 3) \<and>
   calls (reset 3 example_world) = [(''default'', nullptr)] \<and>
   objects (reset 3 example_world) = objects example_world"
  using reset_disposes_current [of 3 example_world]
  by (simp add: example_world_def operator_bool_def)

text \<open>
  C5.  For every handle \<open>H\<close>: \<open>(H == nullptr) == !bool(H)\<close>, \<open>(H != nullptr) == bool(H)\<close>,
  \<open>(H < nullptr) == false\<close>, \<open>(H > nullptr) == bool(H)\<close>, \<open>(H <= nullptr) == !bool(H)\<close> and
  \<open>(H >= nullptr) == true\<close>.
\<close>

theorem nullptr_comparison_laws:
  "eq_nullptr H = (\<not> operator_bool H) \<and>
   ne_nullptr H = operator_bool H \<and>
   lt_nullptr H = False \<and>
   gt_nullptr H = operator_bool H \<and>
   le_nullptr H = (\<not> operator_bool H) \<and>
   ge_nullptr H = True"
  by (simp add: eq_nullptr_def ne_nullptr_def lt_nullptr_def gt_nullptr_def le_nullptr_def
      ge_nullptr_def operator_bool_def pointer_to_bool_def)

text \<open>
  C10.  Self-move-assignment is safe.  For a handle \<open>H\<close> managing a non-null address \<open>p\<close>,
  after \<open>H = move(H)\<close> the handle still manages \<open>p\<close> and no other object has changed; the
  deleter of \<open>H\<close> is the one its self-move-assignment leaves.  During the assignment the
  deleter is invoked once, on the null address, and never on \<open>p\<close>.  The destruction of \<open>H\<close>
  afterwards invokes the deleter that \<open>H\<close> then holds once, on \<open>p\<close>, so that \<open>p\<close> is disposed
  of exactly once, and leaves \<open>H\<close> empty.  This holds whatever a move does to a deleter.
\<close>

theorem self_move_assign_safe:
  "ptr (objects w H) \<noteq> nullptr \<Longrightarrow>
   (let p = ptr (objects w H); d = deleter (objects w H);
        w' = move_assign m H H w;
        w'' = destructor H w'
    in get (objects w' H) = p \<and>
       operator_bool (objects w' H) \<and>
       objects w' = (objects w)(H := \<lparr>ptr = p, deleter = self_moved m d\<rparr>) \<and>
       calls w' = calls w @ [(d, nullptr)] \<and>
       addresses (drop (length (calls w)) (calls w')) = [nullptr] \<and>
       calls w'' = calls w' @ [(get_deleter (objects w' H), p)] \<and>
       addresses (drop (length (calls w)) (calls w'')) = [nullptr, p] \<and>
       count_list (addresses (drop (length (calls w)) (calls w''))) p = 1 \<and>
       \<not> operator_bool (objects w'' H))"
  by (auto simp add: handle_defs Let_def fun_eq_iff addresses_def)

theorem self_move_assign_safe_witness:
  "ptr (objects example_world 1) \<noteq> nullptr \<and>
   get (objects (move_assign example_moves 1 1 example_world) 1) = 100 \<and>
   get_deleter (objects (move_assign example_moves 1 1 example_world) 1) = [] \<and>
   calls (move_assign example_moves 1 1 example_world) = [(''dA'', nullptr)] \<and>
   calls (destructor 1 (move_assign example_moves 1 1 example_world)) =
     [(''dA'', nullptr), ([], 100)]"
  using self_move_assign_safe [where m = example_moves and H = 1 and w = example_world]
  by (simp add: example_world_def example_moves_def handle_defs nullptr_def Let_def)

section \<open>Properties of the fixed sequence\<close>

subsection \<open>The loops\<close>

lemma length_btn_fill: "length (btn_fill pos end_pos v xs) = length xs"
  by (induction pos end_pos v xs rule: btn_fill.induct) (subst btn_fill.simps, simp)

lemma nth_btn_fill:
  "i < length xs \<Longrightarrow>
   btn_fill pos end_pos v xs ! i = (if pos \<le> i \<and> i < end_pos then v else xs ! i)"
proof (induction pos end_pos v xs rule: btn_fill.induct)
  case (1 pos end_pos v xs)
  show ?case
  proof (cases "pos < end_pos")
    case True
    have "btn_fill pos end_pos v xs ! i = btn_fill (Suc pos) end_pos v (xs[pos := v]) ! i"
      using True by (subst btn_fill.simps) simp
    also have "\<dots> = (if Suc pos \<le> i \<and> i < end_pos then v else xs[pos := v] ! i)"
      using "1.IH" [OF True] "1.prems" by simp
    also have "\<dots> = (if pos \<le> i \<and> i < end_pos then v else xs ! i)"
      using True "1.prems" by (auto simp add: nth_list_update)
    finally show ?thesis .
  next
    case False
    then show ?thesis by (subst btn_fill.simps) auto
  qed
qed

lemma btn_fill_all: "btn_fill 0 (length xs) v xs = replicate (length xs) v"
  by (rule nth_equalityI) (simp_all add: length_btn_fill nth_btn_fill)

lemma length_swap_loop:
  "length (fst (swap_loop index n xs ys)) = length xs \<and>
   length (snd (swap_loop index n xs ys)) = length ys"
  by (induction index n xs ys rule: swap_loop.induct) (subst (1 2) swap_loop.simps, simp)

lemma nth_swap_loop:
  "0 \<le> index \<Longrightarrow> i < length xs \<Longrightarrow> length ys = length xs \<Longrightarrow>
   fst (swap_loop index n xs ys) ! i = (if index \<le> int i \<and> int i < n then ys ! i else xs ! i) \<and>
   snd (swap_loop index n xs ys) ! i = (if index \<le> int i \<and> int i < n then xs ! i else ys ! i)"
proof (induction index n xs ys rule: swap_loop.induct)
  case (1 index n xs ys)
  show ?case
  proof (cases "index < n")
    case True
    let ?xs = "xs[nat index := ys ! nat index]" and ?ys = "ys[nat index := xs ! nat index]"
    have step: "swap_loop index n xs ys = swap_loop (index + 1) n ?xs ?ys"
      using True by (subst swap_loop.simps) simp
    have IH: "fst (swap_loop (index + 1) n ?xs ?ys) ! i =
                (if index + 1 \<le> int i \<and> int i < n then ?ys ! i else ?xs ! i) \<and>
              snd (swap_loop (index + 1) n ?xs ?ys) ! i =
                (if index + 1 \<le> int i \<and> int i < n then ?xs ! i else ?ys ! i)"
      using "1.IH" [OF True] "1.prems" by simp
    show ?thesis
      unfolding step using IH True "1.prems" by (auto simp add: nth_list_update)
  next
    case False
    then show ?thesis by (subst (1 2) swap_loop.simps) auto
  qed
qed

lemma swap_loop_exchanges:
  assumes "int (length xs) = n" "length ys = length xs"
  shows "swap_loop 0 n xs ys = (ys, xs)"
proof -
  have "fst (swap_loop 0 n xs ys) = ys"
    using assms by (intro nth_equalityI) (simp_all add: length_swap_loop nth_swap_loop)
  moreover have "snd (swap_loop 0 n xs ys) = xs"
    using assms by (intro nth_equalityI) (simp_all add: length_swap_loop nth_swap_loop)
  ultimately show ?thesis by (simp add: prod_eq_iff)
qed

lemma btn_equal_iff:
  "length xs = length ys \<Longrightarrow> btn_equal xs ys = (\<forall>i<length xs. xs ! i = ys ! i)"
proof (induction xs ys rule: list_induct2)
  case Nil
  then show ?case by simp
next
  case (Cons x xs y ys)
  then show ?case by (auto simp add: nth_Cons split: nat.splits)
qed

lemma lexicographical_compare_first_difference:
  "length xs = length ys \<Longrightarrow> k < length xs \<Longrightarrow> \<forall>j<k. xs ! j = ys ! j \<Longrightarrow> xs ! k \<noteq> ys ! k \<Longrightarrow>
   btn_lexicographical_compare xs ys = (xs ! k < ys ! k)"
proof (induction xs ys arbitrary: k rule: list_induct2)
  case Nil
  then show ?case by simp
next
  case (Cons x xs y ys)
  show ?case
  proof (cases k)
    case 0
    with Cons.prems show ?thesis by auto
  next
    case (Suc k')
    have "x = y" using Cons.prems(2) Suc by force
    moreover have "btn_lexicographical_compare xs ys = (xs ! k' < ys ! k')"
      using Cons.prems Suc by (intro Cons.IH) auto
    ultimately show ?thesis using Suc by simp
  qed
qed

lemma lexicographical_compare_irrefl: "\<not> btn_lexicographical_compare xs xs"
  by (induction xs) auto

lemma first_difference_exists:
  "length xs = length ys \<Longrightarrow> xs \<noteq> ys \<Longrightarrow>
   \<exists>k<length xs. (\<forall>j<k. xs ! j = ys ! j) \<and> xs ! k \<noteq> ys ! k"
proof (induction xs ys rule: list_induct2)
  case Nil
  then show ?case by simp
next
  case (Cons x xs y ys)
  show ?case
  proof (cases "x = y")
    case False
    then show ?thesis by (intro exI [of _ 0]) simp
  next
    case True
    with Cons obtain k where "k < length xs" "\<forall>j<k. xs ! j = ys ! j" "xs ! k \<noteq> ys ! k"
      by auto
    with True show ?thesis
      by (intro exI [of _ "Suc k"]) (auto simp add: nth_Cons split: nat.splits)
  qed
qed

subsection \<open>Element access\<close>

text \<open>
  C6.  For an array of \<open>Size\<close> elements and an index \<open>i\<close> outside \<open>[0, Size)\<close>, negative
  indices and \<open>Size\<close> itself included, both \<open>at(i)\<close> and \<open>operator[](i)\<close> end in the failed
  assertion; for \<open>i\<close> in \<open>[0, Size)\<close> both return element \<open>i\<close> of the storage, and no
  assertion fails.
\<close>

theorem index_checked:
  assumes "well_formed a"
  shows "(0 \<le> i \<and> i < Size a \<longrightarrow>
            nat i < length (data a) \<and>
            array_at a i = Inr (data a ! nat i) \<and>
            array_subscript a i = Inr (data a ! nat i)) \<and>
         (\<not> (0 \<le> i \<and> i < Size a) \<longrightarrow>
            array_at a i = Inl (Assertion_failure ''Invalid index: '' i) \<and>
            array_subscript a i = Inl (Assertion_failure ''Invalid index: '' i))"
  using assms
  by (auto simp add: array_at_def array_subscript_def BTN_ASSERT_def well_formed_def)

theorem index_checked_witness:
  "well_formed example_array \<and>
   array_at example_array 0 = Inr 1 \<and> array_subscript example_array 2 = Inr 3 \<and>
   array_at example_array (- 1) = Inl (Assertion_failure ''Invalid index: '' (- 1)) \<and>
   array_subscript example_array (- 1) = Inl (Assertion_failure ''Invalid index: '' (- 1)) \<and>
   array_at example_array (Size example_array) = Inl (Assertion_failure ''Invalid index: '' 3) \<and>
   array_subscript example_array (Size example_array) = Inl (Assertion_failure ''Invalid index: '' 3)"
proof -
  have wf: "well_formed example_array"
    by (simp add: example_array_def well_formed_def)
  show ?thesis
    using wf index_checked [OF wf, of 0] index_checked [OF wf, of 2]
      index_checked [OF wf, of "- 1"] index_checked [OF wf, of "Size example_array"]
    by (simp add: example_array_def)
qed

subsection \<open>Capacity\<close>

lemmas capacity_defs = array_size_def array_max_size_def array_available_def array_empty_def
  array_full_def

lemma Size_array_fill: "Size (array_fill a v) = Size a"
  by (simp add: array_fill_def)

lemma well_formed_array_fill: "well_formed a \<Longrightarrow> well_formed (array_fill a v)"
  by (simp add: array_fill_def well_formed_def length_btn_fill)

lemma data_array_fill:
  "well_formed a \<Longrightarrow> data (array_fill a v) = replicate (nat (Size a)) v"
proof -
  assume "well_formed a"
  then have "nat (Size a) = length (data a)"
    by (auto simp add: well_formed_def)
  then show ?thesis
    by (simp add: array_fill_def btn_fill_all)
qed

lemma Size_array_swap:
  "Size (fst (array_swap a other)) = Size a \<and> Size (snd (array_swap a other)) = Size other"
  by (simp add: array_swap_def split_beta)

lemma well_formed_array_swap:
  "well_formed a \<Longrightarrow> well_formed other \<Longrightarrow>
   well_formed (fst (array_swap a other)) \<and> well_formed (snd (array_swap a other))"
  by (simp add: array_swap_def split_beta well_formed_def length_swap_loop)

lemma array_swap_exchanges:
  assumes "well_formed a" "well_formed other" "Size other = Size a"
  shows "array_swap a other = (a\<lparr>data := data other\<rparr>, other\<lparr>data := data a\<rparr>)"
proof -
  have "int (length (data a)) = Size a" "length (data other) = length (data a)"
    using assms by (auto simp add: well_formed_def)
  then have "swap_loop 0 (Size a) (data a) (data other) = (data other, data a)"
    by (rule swap_loop_exchanges)
  then show ?thesis by (simp add: array_swap_def)
qed

lemma array_assign_preserves:
  "array_assign a index v = Inr a' \<Longrightarrow>
   Size a' = Size a \<and> (well_formed a \<longrightarrow> well_formed a')"
  by (auto simp add: array_assign_def BTN_ASSERT_def well_formed_def split: if_splits)

lemma apply_operation_preserves:
  assumes "well_formed a" "operation_typed (Size a) operation"
    "apply_operation a operation = Inr a'"
  shows "Size a' = Size a \<and> well_formed a'"
proof (cases operation)
  case (Fill v)
  with assms show ?thesis
    by (auto simp add: Size_array_fill well_formed_array_fill)
next
  case (Swap_with other)
  with assms show ?thesis
    by (auto simp add: Size_array_swap well_formed_array_swap)
next
  case (Assign index v)
  with assms show ?thesis
    using array_assign_preserves [of a index v a'] by simp
qed

lemma apply_operations_preserves:
  "well_formed a \<Longrightarrow> \<forall>operation\<in>set operations. operation_typed (Size a) operation \<Longrightarrow>
   apply_operations a operations = Inr a' \<Longrightarrow> Size a' = Size a \<and> well_formed a'"
proof (induction operations arbitrary: a)
  case Nil
  then show ?case by simp
next
  case (Cons operation rest)
  from Cons.prems(3) obtain a1 where
    first: "apply_operation a operation = Inr a1" and
    later: "apply_operations a1 rest = Inr a'"
    by (auto split: sum.splits)
  have a1: "Size a1 = Size a \<and> well_formed a1"
    using apply_operation_preserves [OF Cons.prems(1) _ first] Cons.prems(2) by simp
  with Cons.IH [of a1] Cons.prems(2) later show ?case by simp
qed

lemma example_run:
  "apply_operations example_array example_operations = Inr \<lparr>Size = 3, data = [1, 5, 9]\<rparr>"
  by (simp add: example_array_def example_operations_def example_other_def array_fill_def
      array_assign_def array_swap_def BTN_ASSERT_def btn_fill.simps swap_loop.simps
      numeral_3_eq_3)

text \<open>
  C7.  For an array of size \<open>Size > 0\<close>, at every point of a lifetime made of \<open>fill\<close>,
  \<open>swap\<close> and element writes (the empty lifetime included): \<open>size() == max_size() == Size\<close>,
  \<open>available() == 0\<close>, \<open>empty() == false\<close> and \<open>full() == true\<close>; the size never changes and
  the storage keeps its \<open>Size\<close> elements.
\<close>

theorem capacity_constant:
  assumes "well_formed a"
    and "\<forall>operation\<in>set operations. operation_typed (Size a) operation"
    and "apply_operations a operations = Inr a'"
  shows "array_size a' = Size a \<and> array_max_size a' = Size a \<and> array_available a' = 0 \<and>
         \<not> array_empty a' \<and> array_full a' \<and> Size a' = Size a \<and> 0 < Size a' \<and>
         well_formed a'"
  using apply_operations_preserves [OF assms]
  by (simp add: capacity_defs well_formed_def)

theorem capacity_constant_witness:
  "well_formed example_array \<and>
   list_all (operation_typed (Size example_array)) example_operations \<and>
   apply_operations example_array example_operations = Inr \<lparr>Size = 3, data = [1, 5, 9]\<rparr> \<and>
   array_size \<lparr>Size = 3, data = [1, 5, 9 :: int]\<rparr> = 3 \<and>
   array_max_size \<lparr>Size = 3, data = [1, 5, 9 :: int]\<rparr> = 3 \<and>
   array_available \<lparr>Size = 3, data = [1, 5, 9 :: int]\<rparr> = 0 \<and>
   \<not> array_empty \<lparr>Size = 3, data = [1, 5, 9 :: int]\<rparr> \<and>
   array_full \<lparr>Size = 3, data = [1, 5, 9 :: int]\<rparr>"
proof -
  have wf: "well_formed example_array"
    by (simp add: example_array_def well_formed_def)
  have typed: "\<forall>operation\<in>set example_operations. operation_typed (Size example_array) operation"
    by (simp add: example_operations_def example_array_def example_other_def well_formed_def)
  show ?thesis
    using wf typed example_run capacity_constant [OF wf typed example_run]
    by (simp add: example_array_def list_all_iff)
qed

subsection \<open>Comparison\<close>

lemma same_length:
  "well_formed a \<Longrightarrow> well_formed b \<Longrightarrow> Size a = Size b \<Longrightarrow> length (data a) = length (data b)"
  by (simp add: well_formed_def)

text \<open>
  C8.  For two arrays \<open>a\<close> and \<open>b\<close> of the same element type and size: \<open>a == b\<close> holds iff
  every element of \<open>a\<close> equals the element of \<open>b\<close> at the same index, and then neither is
  less than the other; otherwise there is a first index \<open>k\<close> at which they differ, and at any
  such \<open>k\<close> the operators \<open><\<close>, \<open>>\<close>, \<open><=\<close> and \<open>>=\<close> are decided by the two elements at
  \<open>k\<close>: the relational operators are the lexicographic comparison.
\<close>

theorem comparison_lexicographic:
  assumes "well_formed a" and "well_formed b" and "Size a = Size b"
  shows "(array_eq a b \<longleftrightarrow> (\<forall>i<length (data a). data a ! i = data b ! i)) \<and>
         (array_eq a b \<longrightarrow>
            \<not> array_ne a b \<and> \<not> array_lt a b \<and> \<not> array_gt a b \<and> array_le a b \<and> array_ge a b) \<and>
         (\<not> array_eq a b \<longrightarrow>
            (\<exists>k<length (data a). (\<forall>j<k. data a ! j = data b ! j) \<and> data a ! k \<noteq> data b ! k)) \<and>
         (k < length (data a) \<and> (\<forall>j<k. data a ! j = data b ! j) \<and> data a ! k \<noteq> data b ! k \<longrightarrow>
            array_ne a b \<and>
            (array_lt a b \<longleftrightarrow> data a ! k < data b ! k) \<and>
            (array_gt a b \<longleftrightarrow> data b ! k < data a ! k) \<and>
            (array_le a b \<longleftrightarrow> data a ! k < data b ! k) \<and>
            (array_ge a b \<longleftrightarrow> data b ! k < data a ! k))"
proof -
  have len: "length (data a) = length (data b)"
    using assms by (rule same_length)
  have eq: "array_eq a b \<longleftrightarrow> (\<forall>i<length (data a). data a ! i = data b ! i)"
    using assms(3) len by (simp add: array_eq_def array_size_def btn_equal_iff)
  have eq_data: "array_eq a b \<longleftrightarrow> data a = data b"
    using len by (auto simp add: eq list_eq_iff_nth_eq)
  have equal_case: "\<not> array_ne a b \<and> \<not> array_lt a b \<and> \<not> array_gt a b \<and> array_le a b \<and> array_ge a b"
    if "array_eq a b"
    using that eq_data
    by (simp add: array_ne_def array_lt_def array_gt_def array_le_def array_ge_def
        lexicographical_compare_irrefl)
  have differ: "\<exists>k<length (data a). (\<forall>j<k. data a ! j = data b ! j) \<and> data a ! k \<noteq> data b ! k"
    if "\<not> array_eq a b"
    using that eq_data len by (intro first_difference_exists) simp_all
  have decided:
    "array_ne a b \<and>
     (array_lt a b \<longleftrightarrow> data a ! k < data b ! k) \<and>
     (array_gt a b \<longleftrightarrow> data b ! k < data a ! k) \<and>
     (array_le a b \<longleftrightarrow> data a ! k < data b ! k) \<and>
     (array_ge a b \<longleftrightarrow> data b ! k < data a ! k)"
    if k: "k < length (data a)" "\<forall>j<k. data a ! j = data b ! j" "data a ! k \<noteq> data b ! k"
  proof -
    have lt: "array_lt a b \<longleftrightarrow> data a ! k < data b ! k"
      unfolding array_lt_def using len k
      by (intro lexicographical_compare_first_difference) simp_all
    have gt: "array_gt a b \<longleftrightarrow> data b ! k < data a ! k"
      unfolding array_gt_def array_lt_def using len k
      by (intro lexicographical_compare_first_difference) simp_all
    have ne: "array_ne a b"
      using k eq by (auto simp add: array_ne_def)
    show ?thesis
      using lt gt ne k(3) by (auto simp add: array_le_def array_ge_def)
  qed
  show ?thesis
    using eq equal_case differ decided by blast
qed

theorem comparison_lexicographic_witness:
  "well_formed example_array \<and> well_formed example_other \<and>
   Size example_array = Size example_other \<and>
   (1::nat) < length (data example_array) \<and>
   data example_array ! 0 = data example_other ! 0 \<and>
   data example_array ! 1 \<noteq> data example_other ! 1 \<and>
   \<not> array_eq example_array example_other \<and>
   array_ne example_array example_other \<and>
   array_lt example_array example_other \<and>
   \<not> array_gt example_array example_other \<and>
   array_le example_array example_other \<and>
   \<not> array_ge example_array example_other \<and>
   array_eq example_array example_array"
proof -
  have wf: "well_formed example_array" "well_formed example_other"
    by (simp_all add: example_array_def example_other_def well_formed_def)
  have same: "Size example_array = Size example_other"
    by (simp add: example_array_def example_other_def)
  have differ:
    "(1::nat) < length (data example_array) \<and>
     (\<forall>j<1. data example_array ! j = data example_other ! j) \<and>
     data example_array ! 1 \<noteq> data example_other ! 1"
    by (simp add: example_array_def example_other_def)
  have "array_ne example_array example_other \<and>
    (array_lt example_array example_other \<longleftrightarrow> data example_array ! 1 < data example_other ! 1) \<and>
    (array_gt example_array example_other \<longleftrightarrow> data example_other ! 1 < data example_array ! 1) \<and>
    (array_le example_array example_other \<longleftrightarrow> data example_array ! 1 < data example_other ! 1) \<and>
    (array_ge example_array example_other \<longleftrightarrow> data example_other ! 1 < data example_array ! 1)"
    using comparison_lexicographic [OF wf same, of 1] differ by blast
  then have decided:
    "\<not> array_eq example_array example_other \<and> array_ne example_array example_other \<and>
     array_lt example_array example_other \<and> \<not> array_gt example_array example_other \<and>
     array_le example_array example_other \<and> \<not> array_ge example_array example_other"
    by (simp add: example_array_def example_other_def array_ne_def)
  have same_array: "array_eq example_array example_array"
    using comparison_lexicographic [OF wf(1) wf(1) refl, of 0] by simp
  show ?thesis
    using wf same differ decided same_array by simp
qed

end
